theory Spec2Isabelle
  imports Complex_Main "HOL-Library.Sublist"
begin

section \<open>The unit converter of \<^verbatim>\<open>unit_converter.py\<close>\<close>

text \<open>
  Python strings are modelled as \<open>string\<close> (lists of characters), Python floats as
  \<open>real\<close>: every decimal literal of the registry is its exact rational value and
  arithmetic is exact, so rounding, overflow and underflow of IEEE doubles are outside
  this development. Exceptions are values of type \<open>error\<close>; a function that may raise
  returns \<open>error + 'a\<close>, with \<open>Inl\<close> for the exception.
\<close>

subsection \<open>Exceptions\<close>

text \<open>
  The module raises \<^verbatim>\<open>NameError\<close> itself, with four different messages. The other
  exceptions are raised by the interpreter: \<^verbatim>\<open>TypeError\<close> when \<^verbatim>\<open>None\<close> is subscripted
  (a regular expression that did not match, a registry lookup that found nothing),
  \<^verbatim>\<open>KeyError\<close> when a dictionary is read at a missing key, \<^verbatim>\<open>ZeroDivisionError\<close>
  when a float is divided by zero.
\<close>

datatype name_error =
    InvalidCharacter char string
  | UnbalancedBrackets string
  | NotAValidUnit string string
  | UnitsIncompatible string string

datatype error =
    NameError name_error
  | TypeError
  | KeyError string
  | ZeroDivisionError

subsection \<open>Character classes of the regular expressions\<close>

definition is_letter :: "char \<Rightarrow> bool" where
  \<comment> \<open>\<^verbatim>\<open>[a-zA-Z]\<close>\<close>
  "is_letter c \<longleftrightarrow>
     (let n = (of_char c :: nat) in (97 \<le> n \<and> n \<le> 122) \<or> (65 \<le> n \<and> n \<le> 90))"

definition is_digit :: "char \<Rightarrow> bool" where
  \<comment> \<open>\<^verbatim>\<open>[0-9]\<close>\<close>
  "is_digit c \<longleftrightarrow> (let n = (of_char c :: nat) in 48 \<le> n \<and> n \<le> 57)"

definition valid_char :: "char \<Rightarrow> bool" where
  \<comment> \<open>the complement of \<^verbatim>\<open>[^a-zA-Z0-9/*\^\(\)\[\] ]\<close>\<close>
  "valid_char c \<longleftrightarrow>
     is_letter c \<or> is_digit c \<or>
     c \<in> {CHR ''/'', CHR ''*'', CHR ''^'', CHR ''('', CHR '')'', CHR ''['', CHR '']'', CHR '' ''}"

subsection \<open>The registry tables\<close>

text \<open>
  \<^verbatim>\<open>UNITS_SI\<close> is a Python set: the order in which a loop visits it is not fixed by the
  language. \<open>UNITS_SI_order\<close> lists it in the order of the source text; the lookup below
  takes the iteration order as an argument.
\<close>

definition UNITS_SI_order :: "string list" where
  "UNITS_SI_order =
     [''s'', ''m'', ''g'', ''A'', ''K'', ''mol'', ''cd'', ''rad'', ''sr'', ''Hz'', ''N'',
      ''Pa'', ''J'', ''W'', ''C'', ''V'', ''F'', ''Ohm'', ''S'', ''Wb'', ''T'', ''H'',
      ''Celsius'', ''lm'', ''lx'', ''Bq'', ''Gy'', ''Sv'', ''kat'']"

definition UNITS_SI :: "string set" where
  "UNITS_SI = set UNITS_SI_order"

definition PREFIX_SI_items :: "(string \<times> real) list" where
  "PREFIX_SI_items =
     [(''f'', 1 / 10 ^ 15),
      (''p'', 1 / 10 ^ 12),
      (''n'', 1 / 10 ^ 9),
      (''mu'', 1 / 10 ^ 6),
      (''m'', 1 / 10 ^ 3),
      (''c'', 1 / 10 ^ 2),
      (''d'', 1 / 10),
      (''da'', 10),
      (''h'', 10 ^ 2),
      (''k'', 10 ^ 3),
      (''M'', 10 ^ 6),
      (''G'', 10 ^ 9),
      (''T'', 10 ^ 12),
      (''P'', 10 ^ 15)]"

definition PREFIX_SI :: "string \<rightharpoonup> real" where
  "PREFIX_SI = map_of PREFIX_SI_items"

definition NON_SI_MAP_items :: "(string \<times> string \<times> real) list" where
  "NON_SI_MAP_items =
     [(''in'', ''m'', 254 / 10000),
      (''ft'', ''m'', 3048 / 10000),
      (''yd'', ''m'', 9144 / 10000),
      (''mi'', ''m'', 1609344 / 1000),
      (''gr'', ''g'', 6479891 / 100000000),
      (''oz'', ''g'', 283495231 / 10000000),
      (''qr'', ''g'', 1133980925 / 100000),
      (''qtr'', ''g'', 1133980925 / 100000),
      (''st'', ''g'', 635029318 / 100000),
      (''lb'', ''g'', 45359237 / 100000),
      (''t'', ''g'', 90718474 / 100),
      (''floz'', ''m^3'', 295735296 / 10 ^ 13),
      (''gi'', ''m^3'', 118294118 / 10 ^ 12),
      (''pt'', ''m^3'', 473176473 / 10 ^ 12),
      (''qt'', ''m^3'', 946352946 / 10 ^ 12),
      (''gal'', ''m^3'', 378541178 / 10 ^ 8),
      (''acre'', ''m^2'', 404685642 / 10 ^ 5),
      (''h'', ''s'', 3600),
      (''lightyear'', ''m'', 94605284 * 10 ^ 8),
      (''l'', ''m^3'', 1 / 1000)]"

definition NON_SI_MAP :: "string \<rightharpoonup> string \<times> real" where
  "NON_SI_MAP = map_of NON_SI_MAP_items"

subsection \<open>Registry lookup: \<^verbatim>\<open>_get_si_unit\<close>\<close>

text \<open>
  \<^verbatim>\<open>re.search(unit_si + "$", unit)\<close>: no symbol of \<^verbatim>\<open>UNITS_SI\<close> contains a character
  that is special in a regular expression, so the pattern is the literal symbol followed
  by \<^verbatim>\<open>$\<close>, which matches at the end of the string and also just before a newline that
  ends the string. The result is the start index of the match.
\<close>

definition search_at_end :: "string \<Rightarrow> string \<Rightarrow> nat option" where
  "search_at_end unit_si unit =
     (if suffix (unit_si @ [CHR 0x0A]) unit then Some (length unit - length unit_si - 1)
      else if suffix unit_si unit then Some (length unit - length unit_si)
      else None)"

text \<open>
  The loop over \<^verbatim>\<open>UNITS_SI\<close>, in the iteration order \<open>order\<close>, falling through to the
  lookup in \<^verbatim>\<open>NON_SI_MAP\<close>. The result \<open>None\<close> is Python's \<^verbatim>\<open>None\<close>.
\<close>

fun get_si_unit_in :: "string list \<Rightarrow> string \<Rightarrow> (string \<times> real) option" where
  "get_si_unit_in [] unit = NON_SI_MAP unit"
| "get_si_unit_in (unit_si # order) unit =
     (case search_at_end unit_si unit of
        None \<Rightarrow> get_si_unit_in order unit
      | Some start \<Rightarrow>
          if start = 0 then Some (unit_si, 1)
          else (case PREFIX_SI (take start unit) of
                  Some multiplier \<Rightarrow> Some (unit_si, multiplier)
                | None \<Rightarrow> get_si_unit_in order unit))"

text \<open>
  Lemma \<open>get_si_unit_in_order\<close> below shows that the result is the same for every
  iteration order of the set, so the rest of the model fixes the order of the source text.
\<close>

definition get_si_unit :: "string \<Rightarrow> (string \<times> real) option" where
  "get_si_unit unit = get_si_unit_in UNITS_SI_order unit"

text \<open>
  What one round of the loop finds for the symbol \<open>unit_si\<close>: the multiplier with which
  the round returns, or \<open>None\<close> when the loop goes on to the next symbol.
\<close>

definition si_match :: "string \<Rightarrow> string \<Rightarrow> real option" where
  "si_match unit_si unit =
     (case search_at_end unit_si unit of
        None \<Rightarrow> None
      | Some start \<Rightarrow> if start = 0 then Some 1 else PREFIX_SI (take start unit))"

subsection \<open>Matches of the letter-run patterns\<close>

text \<open>
  \<^verbatim>\<open>re.finditer(r"[a-zA-Z]+", s)\<close>: the maximal runs of letters of \<open>s\<close>, from left to
  right.
\<close>

function letter_runs :: "string \<Rightarrow> string list" where
  "letter_runs [] = []"
| "letter_runs (c # cs) =
     (if is_letter c
      then takeWhile is_letter (c # cs) # letter_runs (dropWhile is_letter cs)
      else letter_runs cs)"
  by pat_completeness auto
termination
  by (relation "measure length") (auto simp: less_Suc_eq_le length_dropWhile_le)

text \<open>
  \<^verbatim>\<open>re.finditer(r"[a-zA-Z]+\^", s)\<close>: every maximal letter-run that is directly followed
  by \<^verbatim>\<open>^\<close>, paired with the text after that \<^verbatim>\<open>^\<close> (the source's \<^verbatim>\<open>unit_\<close> and
  \<^verbatim>\<open>str_post\<close>). The search for the next match resumes after the \<^verbatim>\<open>^\<close>.
\<close>

function caret_matches :: "string \<Rightarrow> (string \<times> string) list" where
  "caret_matches [] = []"
| "caret_matches (c # cs) =
     (if is_letter c
      then (case dropWhile is_letter cs of
              [] \<Rightarrow> []
            | r # post \<Rightarrow>
                if r = CHR ''^''
                then (takeWhile is_letter (c # cs), post) # caret_matches post
                else caret_matches (r # post))
      else caret_matches cs)"
  by pat_completeness auto
termination
proof (relation "measure length", goal_cases)
  case 1
  show ?case by simp
next
  case (2 c cs r post)
  have "length (dropWhile is_letter cs) \<le> length cs" by (rule length_dropWhile_le)
  with 2 show ?case by simp
next
  case (3 c cs r post)
  have "length (dropWhile is_letter cs) \<le> length cs" by (rule length_dropWhile_le)
  with 3 show ?case by simp
next
  case (4 c cs)
  show ?case by simp
qed

text \<open>
  \<^verbatim>\<open>re.finditer(r"/[a-zA-Z]+", s)\<close>: the letter-run (the source's \<^verbatim>\<open>unit_\<close>) of every
  \<^verbatim>\<open>/\<close> that is directly followed by a letter.
\<close>

function slash_matches :: "string \<Rightarrow> string list" where
  "slash_matches [] = []"
| "slash_matches (c # cs) =
     (if c = CHR ''/'' \<and> takeWhile is_letter cs \<noteq> []
      then takeWhile is_letter cs # slash_matches (dropWhile is_letter cs)
      else slash_matches cs)"
  by pat_completeness auto
termination
  by (relation "measure length") (auto simp: less_Suc_eq_le length_dropWhile_le)

subsection \<open>Validation: \<^verbatim>\<open>_ensure_si_unit\<close>\<close>

text \<open>
  The three checks in the order of the source; \<^verbatim>\<open>re.search\<close> reports the leftmost
  character outside the alphabet, the loop over the letter-runs the first one that the
  registry does not know. The function returns nothing when all checks pass.
\<close>

definition ensure_si_unit :: "string \<Rightarrow> error + unit" where
  "ensure_si_unit unit =
     (case find (\<lambda>c. \<not> valid_char c) unit of
        Some c \<Rightarrow> Inl (NameError (InvalidCharacter c unit))
      | None \<Rightarrow>
          if count_list unit (CHR ''('') \<noteq> count_list unit (CHR '')'')
          then Inl (NameError (UnbalancedBrackets unit))
          else (case find (\<lambda>res. get_si_unit res = None) (letter_runs unit) of
                  Some res \<Rightarrow> Inl (NameError (NotAValidUnit res unit))
                | None \<Rightarrow> Inr ()))"

subsection \<open>The exponent dictionary\<close>

text \<open>
  A Python dictionary keeps its keys in insertion order, and the conversion factor is a
  product taken in that order, so the dictionary of exponents is an association list with
  distinct keys. \<open>dict_store\<close> is \<^verbatim>\<open>d[k] = v\<close>, \<open>dict_times\<close> is \<^verbatim>\<open>d[k] *= x\<close>, which
  reads \<^verbatim>\<open>d[k]\<close> first and raises \<^verbatim>\<open>KeyError\<close> when the key is missing.
\<close>

type_synonym exponents = "(string \<times> real) list"

definition dict_store :: "string \<Rightarrow> real \<Rightarrow> exponents \<Rightarrow> exponents" where
  "dict_store k v d =
     (if k \<in> fst ` set d then map (\<lambda>(k', v'). if k' = k then (k', v) else (k', v')) d
      else d @ [(k, v)])"

definition dict_times :: "string \<Rightarrow> real \<Rightarrow> exponents \<Rightarrow> error + exponents" where
  "dict_times k x d =
     (if k \<in> fst ` set d then Inr (map (\<lambda>(k', v'). if k' = k then (k', v' * x) else (k', v')) d)
      else Inl (KeyError k))"

definition initial_exponents :: "string \<Rightarrow> exponents" where
  \<comment> \<open>\<^verbatim>\<open>{unit[0]: 1.0 for unit in re.finditer(r"[a-zA-Z]+", unit)}\<close>\<close>
  "initial_exponents unit = foldl (\<lambda>d k. dict_store k 1 d) [] (letter_runs unit)"

fun dict_times_all :: "string list \<Rightarrow> real \<Rightarrow> exponents \<Rightarrow> error + exponents" where
  \<comment> \<open>\<^verbatim>\<open>for res in ...: unit_exponents[res[0]] *= exponent\<close>\<close>
  "dict_times_all [] x d = Inr d"
| "dict_times_all (k # ks) x d =
     (case dict_times k x d of Inl e \<Rightarrow> Inl e | Inr d' \<Rightarrow> dict_times_all ks x d')"

subsection \<open>Exponent literals\<close>

text \<open>
  \<^verbatim>\<open>re.match(r"([0-9]+/[0-9]+|[0-9]+)", s)\<close>: the text matched at the start of \<open>s\<close>, or
  \<open>None\<close>. The first alternative needs the whole leading digit run, a \<^verbatim>\<open>/\<close> and at
  least one more digit; otherwise the second alternative takes the leading digit run.
\<close>

definition match_exponent :: "string \<Rightarrow> string option" where
  "match_exponent s =
     (let num = takeWhile is_digit s; rest = dropWhile is_digit s in
      if num = [] then None
      else (case rest of
              [] \<Rightarrow> Some num
            | r # rs \<Rightarrow>
                if r = CHR ''/'' \<and> takeWhile is_digit rs \<noteq> []
                then Some (num @ [CHR ''/''] @ takeWhile is_digit rs)
                else Some num))"

definition float_of_digits :: "string \<Rightarrow> real" where
  \<comment> \<open>\<^verbatim>\<open>float(s)\<close> for a string of decimal digits\<close>
  "float_of_digits s = foldl (\<lambda>a c. 10 * a + real (of_char c - 48)) 0 s"

definition exponent_value :: "string \<Rightarrow> error + real" where
  \<comment> \<open>the value of a matched exponent literal; a float division by zero raises\<close>
  "exponent_value exponent_str =
     (if CHR ''/'' \<in> set exponent_str
      then (let num = takeWhile (\<lambda>c. c \<noteq> CHR ''/'') exponent_str;
                denom = drop 1 (dropWhile (\<lambda>c. c \<noteq> CHR ''/'') exponent_str)
            in if float_of_digits denom = 0 then Inl ZeroDivisionError
               else Inr (float_of_digits num / float_of_digits denom))
      else Inr (float_of_digits exponent_str))"

subsection \<open>Whitespace\<close>

text \<open>
  \<^verbatim>\<open>re.sub(r"(?<=[^/*])\s+(?=[^/*])", "*", unit)\<close>, on a string that has passed
  validation, where the blank is the only whitespace character. The scan goes from left
  to right; \<open>prev\<close> is the character before the current position (\<open>None\<close> at the start
  of the string), which the look-behind reads from the original string. A match starts at
  a blank whose predecessor is neither \<^verbatim>\<open>/\<close> nor \<^verbatim>\<open>*\<close>. The greedy \<^verbatim>\<open>\s+\<close> first takes
  the whole run of blanks and needs a next character other than \<^verbatim>\<open>/\<close> and \<^verbatim>\<open>*\<close>;
  failing that it gives back one blank, which then is the character the look-ahead
  accepts, provided that at least one blank is left in the match.
\<close>

definition is_operator :: "char \<Rightarrow> bool" where
  \<comment> \<open>\<^verbatim>\<open>[/*]\<close>\<close>
  "is_operator c \<longleftrightarrow> c = CHR ''/'' \<or> c = CHR ''*''"

function sub_spaces :: "char option \<Rightarrow> string \<Rightarrow> string" where
  "sub_spaces prev [] = []"
| "sub_spaces prev (c # cs) =
     (if c = CHR '' '' \<and> (case prev of None \<Rightarrow> False | Some p \<Rightarrow> \<not> is_operator p)
      then (let n = length (takeWhile (\<lambda>x. x = CHR '' '') cs);
                rest = drop n cs
            in if rest \<noteq> [] \<and> \<not> is_operator (hd rest)
               then CHR ''*'' # sub_spaces (Some (CHR '' '')) rest
               else if 1 \<le> n
               then CHR ''*'' # sub_spaces (Some (CHR '' '')) (drop (n - 1) cs)
               else c # sub_spaces (Some c) cs)
      else c # sub_spaces (Some c) cs)"
  by pat_completeness auto
termination
  by (relation "measure (\<lambda>(prev, s). length s)") auto

definition strip_spaces :: "string \<Rightarrow> string" where
  \<comment> \<open>the source's \<^verbatim>\<open>_unit\<close> before the brackets are removed\<close>
  "strip_spaces unit = filter (\<lambda>c. c \<noteq> CHR '' '') (sub_spaces None unit)"

subsection \<open>Brackets\<close>

text \<open>
  \<^verbatim>\<open>re.search(r"\([^()]*\)", s)\<close>: the leftmost \<^verbatim>\<open>(\<close> whose next bracket is a \<^verbatim>\<open>)\<close>.
  The result is the text before the match, the text between the two brackets and the
  text after the match (the source's \<^verbatim>\<open>str_pre\<close>, \<^verbatim>\<open>bracket_content[0][1:-1]\<close> and
  \<^verbatim>\<open>str_post\<close>).
\<close>

definition is_bracket :: "char \<Rightarrow> bool" where
  "is_bracket c \<longleftrightarrow> c = CHR ''('' \<or> c = CHR '')''"

fun search_bracket :: "string \<Rightarrow> (string \<times> string \<times> string) option" where
  "search_bracket [] = None"
| "search_bracket (c # cs) =
     (if c = CHR ''('' \<and>
         (case dropWhile (\<lambda>x. \<not> is_bracket x) cs of [] \<Rightarrow> False | r # rs \<Rightarrow> r = CHR '')'')
      then Some ([], takeWhile (\<lambda>x. \<not> is_bracket x) cs,
                 drop 1 (dropWhile (\<lambda>x. \<not> is_bracket x) cs))
      else (case search_bracket cs of
              None \<Rightarrow> None
            | Some (str_pre, inner, str_post) \<Rightarrow> Some (c # str_pre, inner, str_post)))"

text \<open>
  The exponent of a bracket: \<open>1.0\<close>, or the literal after a \<^verbatim>\<open>^\<close> that directly follows
  the closing bracket, which is then cut from \<^verbatim>\<open>str_post\<close>. When \<^verbatim>\<open>re.match\<close> finds no
  literal there, \<^verbatim>\<open>res\<close> is \<^verbatim>\<open>None\<close> and \<^verbatim>\<open>res[0]\<close> raises \<^verbatim>\<open>TypeError\<close>.
\<close>

definition bracket_exponent :: "string \<Rightarrow> error + real \<times> string" where
  "bracket_exponent str_post =
     (if str_post \<noteq> [] \<and> hd str_post = CHR ''^''
      then (case match_exponent (drop 1 str_post) of
              None \<Rightarrow> Inl TypeError
            | Some res \<Rightarrow>
                (case exponent_value res of
                   Inl e \<Rightarrow> Inl e
                 | Inr x \<Rightarrow> Inr (1 * x, drop (length res + 1) str_post)))
      else Inr (1, str_post))"

text \<open>
  The loop \<^verbatim>\<open>while bracket_content := re.search(...)\<close>. Every round removes one pair of
  brackets, so the loop ends.
\<close>

function remove_brackets :: "exponents \<Rightarrow> string \<Rightarrow> error + exponents \<times> string" where
  "remove_brackets unit_exponents unit =
     (case search_bracket unit of
        None \<Rightarrow> Inr (unit_exponents, unit)
      | Some (str_pre, inner, str_post) \<Rightarrow>
          (case bracket_exponent str_post of
             Inl e \<Rightarrow> Inl e
           | Inr (exponent, str_post') \<Rightarrow>
               (let divided = (str_pre \<noteq> [] \<and> last str_pre = CHR ''/'');
                    str_pre' = (if divided then butlast str_pre @ [CHR ''*''] else str_pre);
                    exponent' = (if divided then exponent * (- 1) else exponent)
                in case dict_times_all (letter_runs ([CHR ''(''] @ inner @ [CHR '')'']))
                          exponent' unit_exponents of
                     Inl e \<Rightarrow> Inl e
                   | Inr unit_exponents' \<Rightarrow>
                       remove_brackets unit_exponents' (str_pre' @ inner @ str_post'))))"
  by pat_completeness auto


lemma search_bracket_length:
  "search_bracket u = Some (str_pre, inner, str_post) \<Longrightarrow>
   length u = length str_pre + length inner + length str_post + 2"
proof (induction u arbitrary: str_pre)
  case Nil
  then show ?case by simp
next
  case (Cons c cs)
  show ?case
  proof (cases "c = CHR ''('' \<and>
      (case dropWhile (\<lambda>x. \<not> is_bracket x) cs of [] \<Rightarrow> False | r # rs \<Rightarrow> r = CHR '')'')")
    case True
    then obtain rs where rs: "dropWhile (\<lambda>x. \<not> is_bracket x) cs = CHR '')'' # rs"
      by (auto split: list.splits)
    have "length cs = length (takeWhile (\<lambda>x. \<not> is_bracket x) cs)
        + length (dropWhile (\<lambda>x. \<not> is_bracket x) cs)"
      by (metis length_append takeWhile_dropWhile_id)
    with True rs Cons.prems show ?thesis by auto
  next
    case False
    with Cons.prems obtain pre' where
      "search_bracket cs = Some (pre', inner, str_post)" "str_pre = c # pre'"
      by (auto split: option.splits)
    with Cons.IH show ?thesis by auto
  qed
qed

lemma bracket_exponent_length:
  "bracket_exponent str_post = Inr (x, str_post') \<Longrightarrow> length str_post' \<le> length str_post"
  by (auto simp: bracket_exponent_def split: if_splits option.splits sum.splits)

termination remove_brackets
proof (relation "measure (\<lambda>(d, u). length u)", goal_cases)
  case 1
  show ?case by simp
next
  case (2 unit_exponents unit found str_pre rest inner str_post res exponent str_post'
      divided str_pre' exponent' unit_exponents')
  from 2 have "search_bracket unit = Some (str_pre, inner, str_post)"
    by simp
  then have "length unit = length str_pre + length inner + length str_post + 2"
    by (rule search_bracket_length)
  moreover from 2 have "bracket_exponent str_post = Inr (exponent, str_post')"
    by simp
  then have "length str_post' \<le> length str_post"
    by (rule bracket_exponent_length)
  moreover from 2 have "length str_pre' = length str_pre"
    by (cases str_pre rule: rev_cases) auto
  ultimately show ?case by simp
qed

subsection \<open>Exponents and divisions outside brackets\<close>

text \<open>
  \<^verbatim>\<open>for res in re.finditer(r"[a-zA-Z]+\^", _unit)\<close>. The exponent literal is matched
  first (\<^verbatim>\<open>TypeError\<close> when there is none); the augmented assignment then reads the
  dictionary entry (\<^verbatim>\<open>KeyError\<close>) before it evaluates its right-hand side
  (\<^verbatim>\<open>ZeroDivisionError\<close>).
\<close>

fun individual_exponents :: "exponents \<Rightarrow> (string \<times> string) list \<Rightarrow> error + exponents" where
  "individual_exponents unit_exponents [] = Inr unit_exponents"
| "individual_exponents unit_exponents ((unit', str_post) # matches) =
     (case match_exponent str_post of
        None \<Rightarrow> Inl TypeError
      | Some exponent_str \<Rightarrow>
          if unit' \<notin> fst ` set unit_exponents then Inl (KeyError unit')
          else (case exponent_value exponent_str of
                  Inl e \<Rightarrow> Inl e
                | Inr x \<Rightarrow>
                    (case dict_times unit' x unit_exponents of
                       Inl e \<Rightarrow> Inl e
                     | Inr unit_exponents' \<Rightarrow> individual_exponents unit_exponents' matches)))"

text \<open>\<^verbatim>\<open>for res in re.finditer(r"/[a-zA-Z]+", _unit): unit_exponents[unit_] *= -1\<close>\<close>

fun individual_divisions :: "exponents \<Rightarrow> string list \<Rightarrow> error + exponents" where
  "individual_divisions unit_exponents [] = Inr unit_exponents"
| "individual_divisions unit_exponents (unit' # matches) =
     (case dict_times unit' (- 1) unit_exponents of
        Inl e \<Rightarrow> Inl e
      | Inr unit_exponents' \<Rightarrow> individual_divisions unit_exponents' matches)"

subsection \<open>\<^verbatim>\<open>_get_unit_exponents\<close>\<close>

definition get_unit_exponents :: "string \<Rightarrow> error + exponents" where
  "get_unit_exponents unit =
     (case ensure_si_unit unit of
        Inl e \<Rightarrow> Inl e
      | Inr _ \<Rightarrow>
          (case remove_brackets (initial_exponents unit) (strip_spaces unit) of
             Inl e \<Rightarrow> Inl e
           | Inr (unit_exponents, unit') \<Rightarrow>
               (case individual_exponents unit_exponents (caret_matches unit') of
                  Inl e \<Rightarrow> Inl e
                | Inr unit_exponents' \<Rightarrow>
                    individual_divisions unit_exponents' (slash_matches unit'))))"

subsection \<open>\<^verbatim>\<open>units_compatible\<close>\<close>

text \<open>
  \<^verbatim>\<open>re.sub("[a-zA-Z]+", lambda res: _get_si_unit(res[0])[0], unit)\<close>: every letter-run is
  replaced by the first component of its registry entry. Subscripting \<^verbatim>\<open>None\<close> would
  raise \<^verbatim>\<open>TypeError\<close>.
\<close>

function sub_units :: "string \<Rightarrow> error + string" where
  "sub_units [] = Inr []"
| "sub_units (c # cs) =
     (if is_letter c
      then (case get_si_unit (takeWhile is_letter (c # cs)) of
              None \<Rightarrow> Inl TypeError
            | Some (unit_si, multiplier) \<Rightarrow>
                (case sub_units (dropWhile is_letter cs) of
                   Inl e \<Rightarrow> Inl e
                 | Inr rest \<Rightarrow> Inr (unit_si @ rest)))
      else (case sub_units cs of Inl e \<Rightarrow> Inl e | Inr rest \<Rightarrow> Inr (c # rest)))"
  by pat_completeness auto
termination
  by (relation "measure length") (auto simp: less_Suc_eq_le length_dropWhile_le)

text \<open>
  The comparison of the two dictionaries: equal sizes, and every entry of the first is an
  entry of the second (\<^verbatim>\<open>unit2_exponents.get(name, "") != exponent\<close> holds for a missing
  name).
\<close>

definition same_exponents :: "exponents \<Rightarrow> exponents \<Rightarrow> bool" where
  "same_exponents unit1_exponents unit2_exponents \<longleftrightarrow>
     length unit1_exponents = length unit2_exponents \<and>
     list_all (\<lambda>(name, exponent). map_of unit2_exponents name = Some exponent) unit1_exponents"

definition units_compatible :: "string \<Rightarrow> string \<Rightarrow> error + bool" where
  "units_compatible unit1 unit2 =
     (case ensure_si_unit unit1 of Inl e \<Rightarrow> Inl e | Inr _ \<Rightarrow>
     (case ensure_si_unit unit2 of Inl e \<Rightarrow> Inl e | Inr _ \<Rightarrow>
     (case sub_units unit1 of Inl e \<Rightarrow> Inl e | Inr unit1_noprefix \<Rightarrow>
     (case sub_units unit2 of Inl e \<Rightarrow> Inl e | Inr unit2_noprefix \<Rightarrow>
     (case get_unit_exponents unit1_noprefix of Inl e \<Rightarrow> Inl e | Inr unit1_exponents \<Rightarrow>
     (case get_unit_exponents unit2_noprefix of Inl e \<Rightarrow> Inl e | Inr unit2_exponents \<Rightarrow>
        Inr (same_exponents unit1_exponents unit2_exponents)))))))"

subsection \<open>\<^verbatim>\<open>unit_conversion_factor\<close>\<close>

text \<open>
  The product \<^verbatim>\<open>multiplier *= _get_si_unit(unit)[1] ** exponent\<close> over the entries of a
  dictionary. Every multiplier of the registry is positive (lemma \<open>get_si_unit_positive\<close>),
  and for a positive base Python's float power is \<open>powr\<close>.
\<close>

fun multiplier_of :: "real \<Rightarrow> exponents \<Rightarrow> error + real" where
  "multiplier_of multiplier [] = Inr multiplier"
| "multiplier_of multiplier ((unit, exponent) # items) =
     (case get_si_unit unit of
        None \<Rightarrow> Inl TypeError
      | Some (unit_si, m) \<Rightarrow> multiplier_of (multiplier * (m powr exponent)) items)"

text \<open>
  The cache \<^verbatim>\<open>_conversion_factor_cache\<close> is the state of the module; the function takes
  it and returns it. A cached factor is used when it is truthy, that is, not \<open>0.0\<close>.
\<close>

type_synonym cache = "string \<times> string \<rightharpoonup> real"

definition compute_factor :: "string \<Rightarrow> string \<Rightarrow> error + real" where
  \<comment> \<open>the body of \<^verbatim>\<open>unit_conversion_factor\<close> after the cache lookup, up to the quotient\<close>
  "compute_factor source_unit target_unit =
     (case units_compatible source_unit target_unit of
        Inl e \<Rightarrow> Inl e
      | Inr compatible \<Rightarrow>
          if \<not> compatible then Inl (NameError (UnitsIncompatible source_unit target_unit))
          else
     (case get_unit_exponents source_unit of Inl e \<Rightarrow> Inl e | Inr source_exponents \<Rightarrow>
     (case get_unit_exponents target_unit of Inl e \<Rightarrow> Inl e | Inr target_exponents \<Rightarrow>
     (case multiplier_of 1 source_exponents of Inl e \<Rightarrow> Inl e | Inr multiplier_source \<Rightarrow>
     (case multiplier_of 1 target_exponents of Inl e \<Rightarrow> Inl e | Inr multiplier_target \<Rightarrow>
        if multiplier_target = 0 then Inl ZeroDivisionError
        else Inr (multiplier_source / multiplier_target))))))"

definition unit_conversion_factor :: "cache \<Rightarrow> string \<Rightarrow> string \<Rightarrow> (error + real) \<times> cache" where
  "unit_conversion_factor cache source_unit target_unit =
     (case cache (source_unit, target_unit) of
        Some factor \<Rightarrow>
          if factor \<noteq> 0 then (Inr factor, cache)
          else (compute_factor source_unit target_unit, cache)
      | None \<Rightarrow>
          (case compute_factor source_unit target_unit of
             Inl e \<Rightarrow> (Inl e, cache)
           | Inr factor \<Rightarrow> (Inr factor, cache((source_unit, target_unit) \<mapsto> factor))))"

text \<open>
  The caches that the module can hold: it starts empty, and only calls of
  \<^verbatim>\<open>unit_conversion_factor\<close> write to it.
\<close>

inductive reachable_cache :: "cache \<Rightarrow> bool" where
  initial: "reachable_cache Map.empty"
| call: "reachable_cache cache \<Longrightarrow>
     reachable_cache (snd (unit_conversion_factor cache source_unit target_unit))"

definition run_calls :: "cache \<Rightarrow> (string \<times> string) list \<Rightarrow> cache" where
  \<comment> \<open>the cache after a sequence of calls, whatever they return\<close>
  "run_calls cache calls =
     foldl (\<lambda>c (source_unit, target_unit). snd (unit_conversion_factor c source_unit target_unit))
       cache calls"

subsection \<open>Unit strings without blanks and brackets\<close>


section \<open>Evaluation of the model\<close>

text \<open>
  The recursive equations are unfolded on request only: on a string that is not a literal
  they would split into cases at every character.
\<close>

declare letter_runs.simps(2) [simp del]
declare caret_matches.simps(2) [simp del]
declare slash_matches.simps(2) [simp del]
declare sub_spaces.simps(2) [simp del]
declare search_bracket.simps(2) [simp del]
declare remove_brackets.simps [simp del]
declare sub_units.simps(2) [simp del]

lemmas scan_simps =
  letter_runs.simps(2) caret_matches.simps(2) slash_matches.simps(2) sub_spaces.simps(2)
  search_bracket.simps(2) remove_brackets.simps sub_units.simps(2)

lemmas registry_defs =
  get_si_unit_def UNITS_SI_order_def search_at_end_def PREFIX_SI_def PREFIX_SI_items_def
  NON_SI_MAP_def NON_SI_MAP_items_def suffix_to_prefix

lemmas char_defs = is_letter_def is_digit_def valid_char_def is_operator_def is_bracket_def
  scan_simps

lemmas exponent_defs =
  get_unit_exponents_def ensure_si_unit_def initial_exponents_def dict_store_def dict_times_def
  strip_spaces_def match_exponent_def exponent_value_def float_of_digits_def
  bracket_exponent_def

lemma get_si_unit_m: "get_si_unit ''m'' = Some (''m'', 1)"
  by (simp add: registry_defs)

lemma get_si_unit_s: "get_si_unit ''s'' = Some (''s'', 1)"
  by (simp add: registry_defs)

lemma get_si_unit_km: "get_si_unit ''km'' = Some (''m'', 1000)"
  by (simp add: registry_defs)

lemma get_si_unit_h: "get_si_unit ''h'' = Some (''s'', 3600)"
  by (simp add: registry_defs)

lemma ensure_si_unit_m: "ensure_si_unit ''m'' = Inr ()"
  by (simp add: ensure_si_unit_def char_defs get_si_unit_m)

lemma ensure_si_unit_s: "ensure_si_unit ''s'' = Inr ()"
  by (simp add: ensure_si_unit_def char_defs get_si_unit_s)

lemma get_unit_exponents_m: "get_unit_exponents ''m'' = Inr [(''m'', 1)]"
  by (simp add: exponent_defs char_defs get_si_unit_m)

lemma get_unit_exponents_s: "get_unit_exponents ''s'' = Inr [(''s'', 1)]"
  by (simp add: exponent_defs char_defs get_si_unit_s)

lemma get_unit_exponents_m_s2: "get_unit_exponents ''m/s^2'' = Inr [(''m'', 1), (''s'', - 2)]"
  by (simp add: exponent_defs char_defs get_si_unit_m get_si_unit_s)

lemma get_unit_exponents_km_h2: "get_unit_exponents ''km/h^2'' = Inr [(''km'', 1), (''h'', - 2)]"
  by (simp add: exponent_defs char_defs get_si_unit_km get_si_unit_h)

lemma sub_units_m: "sub_units ''m'' = Inr ''m''"
  by (simp add: char_defs get_si_unit_m)

lemma sub_units_s: "sub_units ''s'' = Inr ''s''"
  by (simp add: char_defs get_si_unit_s)

lemma sub_units_m_s2: "sub_units ''m/s^2'' = Inr ''m/s^2''"
  by (simp add: char_defs get_si_unit_m get_si_unit_s)

lemma sub_units_km_h2: "sub_units ''km/h^2'' = Inr ''m/s^2''"
  by (simp add: char_defs get_si_unit_km get_si_unit_h)

lemma units_compatible_m_s2_km_h2: "units_compatible ''m/s^2'' ''km/h^2'' = Inr True"
proof -
  have "ensure_si_unit ''m/s^2'' = Inr ()"
    by (simp add: ensure_si_unit_def char_defs get_si_unit_m get_si_unit_s)
  moreover have "ensure_si_unit ''km/h^2'' = Inr ()"
    by (simp add: ensure_si_unit_def char_defs get_si_unit_km get_si_unit_h)
  ultimately show ?thesis
    by (simp add: units_compatible_def sub_units_m_s2 sub_units_km_h2 get_unit_exponents_m_s2
        same_exponents_def)
qed

lemma compute_factor_m_s2_km_h2: "compute_factor ''m/s^2'' ''km/h^2'' = Inr 12960"
  by (simp add: compute_factor_def units_compatible_m_s2_km_h2 get_unit_exponents_m_s2
      get_unit_exponents_km_h2 get_si_unit_m get_si_unit_s get_si_unit_km get_si_unit_h
      powr_minus)

lemma units_compatible_m_s: "units_compatible ''m'' ''s'' = Inr False"
  by (simp add: units_compatible_def ensure_si_unit_m ensure_si_unit_s sub_units_m sub_units_s
      get_unit_exponents_m get_unit_exponents_s same_exponents_def)

section \<open>The cache\<close>

lemma unit_conversion_factor_result:
  "fst (unit_conversion_factor cache source_unit target_unit) =
     (case cache (source_unit, target_unit) of
        None \<Rightarrow> compute_factor source_unit target_unit
      | Some factor \<Rightarrow>
          if factor \<noteq> 0 then Inr factor else compute_factor source_unit target_unit)"
  by (simp add: unit_conversion_factor_def split: option.splits sum.splits)

lemma unit_conversion_factor_cache:
  "snd (unit_conversion_factor cache source_unit target_unit) =
     (case (cache (source_unit, target_unit), compute_factor source_unit target_unit) of
        (None, Inr factor) \<Rightarrow> cache((source_unit, target_unit) \<mapsto> factor)
      | _ \<Rightarrow> cache)"
  by (simp add: unit_conversion_factor_def split: option.splits sum.splits)

lemma unit_conversion_factor_keeps:
  "cache key = Some factor \<Longrightarrow>
   snd (unit_conversion_factor cache source_unit target_unit) key = Some factor"
  by (auto simp: unit_conversion_factor_cache split: option.splits sum.splits)

lemma unit_conversion_factor_other_key:
  "key \<noteq> (source_unit, target_unit) \<Longrightarrow>
   snd (unit_conversion_factor cache source_unit target_unit) key = cache key"
  by (auto simp: unit_conversion_factor_cache split: option.splits sum.splits)

lemma run_calls_keeps:
  "cache key = Some factor \<Longrightarrow> run_calls cache calls key = Some factor"
proof (induction calls arbitrary: cache)
  case Nil
  then show ?case by (simp add: run_calls_def)
next
  case (Cons call calls)
  obtain s t where call: "call = (s, t)" by (cases call)
  from Cons.prems have "snd (unit_conversion_factor cache s t) key = Some factor"
    by (rule unit_conversion_factor_keeps)
  then have "run_calls (snd (unit_conversion_factor cache s t)) calls key = Some factor"
    by (rule Cons.IH)
  then show ?case by (simp add: run_calls_def call)
qed

lemma reachable_cache_sound:
  "reachable_cache cache \<Longrightarrow> cache (source_unit, target_unit) = Some factor \<Longrightarrow>
   compute_factor source_unit target_unit = Inr factor"
proof (induction arbitrary: source_unit target_unit factor rule: reachable_cache.induct)
  case initial
  then show ?case by simp
next
  case (call cache s t)
  show ?case
  proof (cases "cache (source_unit, target_unit)")
    case (Some old)
    then have "snd (unit_conversion_factor cache s t) (source_unit, target_unit) = Some old"
      by (rule unit_conversion_factor_keeps)
    with call.prems have "old = factor" by simp
    with Some call.IH show ?thesis by simp
  next
    case None
    with call.prems show ?thesis
      by (auto simp: unit_conversion_factor_cache split: option.splits sum.splits if_splits)
  qed
qed

lemma reachable_cache_result:
  "reachable_cache cache \<Longrightarrow>
   fst (unit_conversion_factor cache source_unit target_unit) =
     compute_factor source_unit target_unit"
  by (auto simp: unit_conversion_factor_result dest: reachable_cache_sound split: option.splits)

lemma unit_conversion_factor_again:
  assumes "fst (unit_conversion_factor cache source_unit target_unit) = Inr factor"
  shows "\<exists>stored. snd (unit_conversion_factor cache source_unit target_unit) (source_unit, target_unit) = Some stored
     \<and> (if stored \<noteq> 0 then stored = factor else compute_factor source_unit target_unit = Inr factor)"
  using assms
  by (auto simp: unit_conversion_factor_result unit_conversion_factor_cache
      split: option.splits sum.splits if_splits)

text \<open>
  C5: the cache is a pure memoization. Once a call has returned a factor for a pair of
  strings, every later call for that pair returns the same factor, whatever calls are
  made in between; a call for one pair does not change what a call for another pair
  returns; and in every cache the module can be in, a call returns what it returns from
  the empty cache.
\<close>

theorem C5_cache_is_memoization:
  "(fst (unit_conversion_factor cache source_unit target_unit) = Inr factor \<longrightarrow>
      fst (unit_conversion_factor
             (run_calls (snd (unit_conversion_factor cache source_unit target_unit)) calls)
             source_unit target_unit) = Inr factor)
   \<and> ((other_source, other_target) \<noteq> (source_unit, target_unit) \<longrightarrow>
      fst (unit_conversion_factor (snd (unit_conversion_factor cache source_unit target_unit))
             other_source other_target)
      = fst (unit_conversion_factor cache other_source other_target))
   \<and> (reachable_cache cache \<longrightarrow>
      fst (unit_conversion_factor cache source_unit target_unit)
      = fst (unit_conversion_factor Map.empty source_unit target_unit))"
proof (intro conjI impI)
  assume "fst (unit_conversion_factor cache source_unit target_unit) = Inr factor"
  then obtain stored where
    stored: "snd (unit_conversion_factor cache source_unit target_unit) (source_unit, target_unit) = Some stored"
    and factor: "if stored \<noteq> 0 then stored = factor else compute_factor source_unit target_unit = Inr factor"
    using unit_conversion_factor_again by blast
  from stored have "run_calls (snd (unit_conversion_factor cache source_unit target_unit)) calls
      (source_unit, target_unit) = Some stored"
    by (rule run_calls_keeps)
  with factor show "fst (unit_conversion_factor
             (run_calls (snd (unit_conversion_factor cache source_unit target_unit)) calls)
             source_unit target_unit) = Inr factor"
    by (simp add: unit_conversion_factor_result split: if_splits)
next
  assume "(other_source, other_target) \<noteq> (source_unit, target_unit)"
  then have "snd (unit_conversion_factor cache source_unit target_unit) (other_source, other_target)
      = cache (other_source, other_target)"
    by (rule unit_conversion_factor_other_key)
  then show "fst (unit_conversion_factor (snd (unit_conversion_factor cache source_unit target_unit))
             other_source other_target)
      = fst (unit_conversion_factor cache other_source other_target)"
    by (simp add: unit_conversion_factor_result)
next
  assume "reachable_cache cache"
  then show "fst (unit_conversion_factor cache source_unit target_unit)
      = fst (unit_conversion_factor Map.empty source_unit target_unit)"
    by (simp add: reachable_cache_result reachable_cache.initial)
qed

theorem C5_cache_is_memoization_witness:
  "fst (unit_conversion_factor Map.empty ''m/s^2'' ''km/h^2'') = Inr 12960
   \<and> fst (unit_conversion_factor
            (run_calls (snd (unit_conversion_factor Map.empty ''m/s^2'' ''km/h^2'')) [(''m'', ''s''), (''m/s^2'', ''km/h^2'')])
            ''m/s^2'' ''km/h^2'') = Inr 12960
   \<and> (''m'', ''s'') \<noteq> (''m/s^2'', ''km/h^2'')
   \<and> fst (unit_conversion_factor (snd (unit_conversion_factor Map.empty ''m/s^2'' ''km/h^2'')) ''m'' ''s'')
      = fst (unit_conversion_factor Map.empty ''m'' ''s'')
   \<and> reachable_cache Map.empty"
  using C5_cache_is_memoization [of Map.empty "''m/s^2''" "''km/h^2''" 12960 "[(''m'', ''s''), (''m/s^2'', ''km/h^2'')]" "''m''" "''s''"]
  by (simp add: reachable_cache.initial unit_conversion_factor_result compute_factor_m_s2_km_h2)

section \<open>Worked examples of the specification\<close>

lemma multiplier_of_m_s2: "multiplier_of 1 [(''m'', 1), (''s'', - 2)] = Inr 1"
  by (simp add: get_si_unit_m get_si_unit_s)

lemma multiplier_of_km_h2:
  "multiplier_of 1 [(''km'', 1), (''h'', - 2)] = Inr (1000 ^ 1 * (1 / 3600 ^ 2))"
  by (simp add: get_si_unit_km get_si_unit_h powr_minus)

text \<open>
  C2: \<^verbatim>\<open>unit_conversion_factor("m/s^2", "km/h^2")\<close> is \<open>(1/1000) / (1/3600)^2\<close>, that is
  \<open>12960\<close>. The \<^verbatim>\<open>/\<close> negates the exponent \<open>2\<close> of the token that follows it, \<^verbatim>\<open>km\<close> is
  resolved by the prefix table to \<open>1000\<close> metres and \<^verbatim>\<open>h\<close> by the non-SI table to \<open>3600\<close>
  seconds, and the factor is the quotient of the two products of multipliers raised to
  their exponents. This holds in every cache the module can be in.
\<close>

theorem C2_factor_m_s2_to_km_h2:
  assumes "reachable_cache cache"
  shows "fst (unit_conversion_factor cache ''m/s^2'' ''km/h^2'') = Inr ((1 / 1000) / (1 / 3600) ^ 2)
    \<and> (1 / 1000) / (1 / 3600) ^ 2 = (12960 :: real)
    \<and> get_unit_exponents ''m/s^2'' = Inr [(''m'', 1), (''s'', - 2)]
    \<and> get_unit_exponents ''km/h^2'' = Inr [(''km'', 1), (''h'', - 2)]
    \<and> get_si_unit ''km'' = Some (''m'', 1000) \<and> PREFIX_SI ''k'' = Some 1000
    \<and> get_si_unit ''h'' = Some (''s'', 3600) \<and> NON_SI_MAP ''h'' = Some (''s'', 3600)
    \<and> multiplier_of 1 [(''m'', 1), (''s'', - 2)] = Inr 1
    \<and> multiplier_of 1 [(''km'', 1), (''h'', - 2)] = Inr (1000 ^ 1 * (1 / 3600 ^ 2))"
proof -
  have arith: "(1 / 1000) / (1 / 3600) ^ 2 = (12960 :: real)"
    by (simp add: power2_eq_square)
  have "fst (unit_conversion_factor cache ''m/s^2'' ''km/h^2'') = Inr 12960"
    using assms by (simp add: reachable_cache_result compute_factor_m_s2_km_h2)
  with arith
  have factor: "fst (unit_conversion_factor cache ''m/s^2'' ''km/h^2'')
      = Inr ((1 / 1000) / (1 / 3600) ^ 2)"
    by simp
  have prefix: "PREFIX_SI ''k'' = Some 1000"
    by (simp add: PREFIX_SI_def PREFIX_SI_items_def)
  have non_si: "NON_SI_MAP ''h'' = Some (''s'', 3600)"
    by (simp add: NON_SI_MAP_def NON_SI_MAP_items_def)
  note factor arith get_unit_exponents_m_s2 get_unit_exponents_km_h2 get_si_unit_km prefix
    get_si_unit_h non_si multiplier_of_m_s2 multiplier_of_km_h2
  then show ?thesis by (intro conjI)
qed

theorem C2_factor_m_s2_to_km_h2_witness:
  "reachable_cache Map.empty
    \<and> fst (unit_conversion_factor Map.empty ''m/s^2'' ''km/h^2'') = Inr 12960"
  using C2_factor_m_s2_to_km_h2 [OF reachable_cache.initial]
  by (simp add: reachable_cache.initial)

text \<open>
  C8: \<^verbatim>\<open>units_compatible("m", "s")\<close> returns \<^verbatim>\<open>False\<close>, and
  \<^verbatim>\<open>unit_conversion_factor("m", "s")\<close> raises the incompatible-units \<^verbatim>\<open>NameError\<close> and
  leaves the cache as it was. Both strings pass validation; their exponent dictionaries
  differ.
\<close>

theorem C8_m_and_s_incompatible:
  assumes "reachable_cache cache"
  shows "units_compatible ''m'' ''s'' = Inr False
    \<and> unit_conversion_factor cache ''m'' ''s''
        = (Inl (NameError (UnitsIncompatible ''m'' ''s'')), cache)
    \<and> ensure_si_unit ''m'' = Inr () \<and> ensure_si_unit ''s'' = Inr ()
    \<and> get_unit_exponents ''m'' = Inr [(''m'', 1)]
    \<and> get_unit_exponents ''s'' = Inr [(''s'', 1)]"
proof -
  have factor: "compute_factor ''m'' ''s'' = Inl (NameError (UnitsIncompatible ''m'' ''s''))"
    by (simp add: compute_factor_def units_compatible_m_s)
  with assms have "cache (''m'', ''s'') = None"
    by (cases "cache (''m'', ''s'')") (auto dest: reachable_cache_sound)
  with factor have "unit_conversion_factor cache ''m'' ''s''
      = (Inl (NameError (UnitsIncompatible ''m'' ''s'')), cache)"
    by (simp add: unit_conversion_factor_def)
  then show ?thesis
    by (simp add: units_compatible_m_s ensure_si_unit_m ensure_si_unit_s get_unit_exponents_m
        get_unit_exponents_s)
qed

theorem C8_m_and_s_incompatible_witness:
  "reachable_cache Map.empty
    \<and> units_compatible ''m'' ''s'' = Inr False
    \<and> fst (unit_conversion_factor Map.empty ''m'' ''s'')
        = Inl (NameError (UnitsIncompatible ''m'' ''s''))"
  using C8_m_and_s_incompatible [OF reachable_cache.initial]
  by (simp add: reachable_cache.initial)

text \<open>
  C1: the claim asks that two spellings of one base symbol in a unit string add their
  exponents, so that \<^verbatim>\<open>km*m\<close> has the exponent \<open>2\<close> for \<^verbatim>\<open>m\<close>. The code does not do
  that: after the substitution the string is \<^verbatim>\<open>m*m\<close>, the dictionary of exponents has
  the one key \<^verbatim>\<open>m\<close> with the exponent \<open>1\<close>, and \<^verbatim>\<open>km*m\<close> (an area) is reported as
  compatible with \<^verbatim>\<open>m\<close> (a length).
\<close>

theorem C1_repeated_symbol_keeps_exponent_one:
  "sub_units ''km*m'' = Inr ''m*m''
    \<and> get_unit_exponents ''m*m'' = Inr [(''m'', 1)]
    \<and> units_compatible ''km*m'' ''m'' = Inr True"
proof -
  have sub: "sub_units ''km*m'' = Inr ''m*m''"
    by (simp add: char_defs get_si_unit_km get_si_unit_m)
  have exps: "get_unit_exponents ''m*m'' = Inr [(''m'', 1)]"
    by (simp add: exponent_defs char_defs get_si_unit_m)
  have "ensure_si_unit ''km*m'' = Inr ()"
    by (simp add: ensure_si_unit_def char_defs get_si_unit_km get_si_unit_m)
  then have "units_compatible ''km*m'' ''m'' = Inr True"
    by (simp add: units_compatible_def ensure_si_unit_m sub sub_units_m exps
        get_unit_exponents_m same_exponents_def)
  with sub exps show ?thesis by simp
qed

section \<open>Validation\<close>

lemma find_first_filter:
  "List.find P xs = (case filter P xs of [] \<Rightarrow> None | x # _ \<Rightarrow> Some x)"
  by (induction xs) auto

lemma ensure_si_unit_invalid_character:
  assumes "\<exists>c \<in> set unit. \<not> valid_char c"
  shows "ensure_si_unit unit
    = Inl (NameError (InvalidCharacter (hd (filter (\<lambda>c. \<not> valid_char c) unit)) unit))"
proof -
  from assms have "filter (\<lambda>c. \<not> valid_char c) unit \<noteq> []"
    by (simp add: filter_empty_conv)
  then show ?thesis
    by (cases "filter (\<lambda>c. \<not> valid_char c) unit")
      (simp_all add: ensure_si_unit_def find_first_filter)
qed

lemma ensure_si_unit_unbalanced:
  assumes "\<forall>c \<in> set unit. valid_char c"
    and "count_list unit (CHR ''('') \<noteq> count_list unit (CHR '')'')"
  shows "ensure_si_unit unit = Inl (NameError (UnbalancedBrackets unit))"
proof -
  from assms(1) have "List.find (\<lambda>c. \<not> valid_char c) unit = None"
    by (simp add: find_None_iff)
  with assms(2) show ?thesis by (simp add: ensure_si_unit_def)
qed

lemma ensure_si_unit_unknown:
  assumes "\<forall>c \<in> set unit. valid_char c"
    and "count_list unit (CHR ''('') = count_list unit (CHR '')'')"
    and "\<exists>res \<in> set (letter_runs unit). get_si_unit res = None"
  shows "ensure_si_unit unit = Inl (NameError (NotAValidUnit
      (hd (filter (\<lambda>res. get_si_unit res = None) (letter_runs unit))) unit))"
proof -
  from assms(1) have "List.find (\<lambda>c. \<not> valid_char c) unit = None"
    by (simp add: find_None_iff)
  moreover from assms(3) have "filter (\<lambda>res. get_si_unit res = None) (letter_runs unit) \<noteq> []"
    unfolding filter_empty_conv by blast
  ultimately show ?thesis using assms(2)
    by (cases "filter (\<lambda>res. get_si_unit res = None) (letter_runs unit)")
      (simp_all add: ensure_si_unit_def find_first_filter)
qed

lemma ensure_si_unit_fails_first:
  assumes "ensure_si_unit unit = Inl e"
  shows "get_unit_exponents unit = Inl e"
    and "units_compatible unit other = Inl e"
    and "ensure_si_unit other = Inr () \<Longrightarrow> units_compatible other unit = Inl e"
    and "compute_factor unit other = Inl e"
    and "ensure_si_unit other = Inr () \<Longrightarrow> compute_factor other unit = Inl e"
  using assms by (simp_all add: get_unit_exponents_def units_compatible_def compute_factor_def)

lemma reachable_cache_failure:
  assumes "reachable_cache cache" and "compute_factor source_unit target_unit = Inl e"
  shows "unit_conversion_factor cache source_unit target_unit = (Inl e, cache)"
proof -
  from assms have "cache (source_unit, target_unit) = None"
    by (cases "cache (source_unit, target_unit)") (auto dest: reachable_cache_sound)
  with assms(2) show ?thesis by (simp add: unit_conversion_factor_def)
qed

text \<open>
  C9: validation rejects a string with a \<^verbatim>\<open>NameError\<close> before any exponent is computed.
  The checks run in the order of the source, so the error is that of the first check that
  fails: a character outside the alphabet is reported as such (the leftmost one); a
  string of valid characters whose counts of \<^verbatim>\<open>(\<close> and \<^verbatim>\<open>)\<close> differ is reported as
  unbalanced; a string that passes both checks and has a letter-run unknown to the
  registry is reported with the first such letter-run. A string with any of the three
  defects is rejected with one of these errors, and the same error is what
  \<^verbatim>\<open>_get_unit_exponents\<close>, \<^verbatim>\<open>units_compatible\<close> and \<^verbatim>\<open>unit_conversion_factor\<close> raise.
\<close>

theorem C9_validation_errors:
  "((\<exists>c \<in> set unit. \<not> valid_char c) \<longrightarrow>
      ensure_si_unit unit
        = Inl (NameError (InvalidCharacter (hd (filter (\<lambda>c. \<not> valid_char c) unit)) unit)))
   \<and> ((\<forall>c \<in> set unit. valid_char c)
        \<and> count_list unit (CHR ''('') \<noteq> count_list unit (CHR '')'') \<longrightarrow>
      ensure_si_unit unit = Inl (NameError (UnbalancedBrackets unit)))
   \<and> ((\<forall>c \<in> set unit. valid_char c)
        \<and> count_list unit (CHR ''('') = count_list unit (CHR '')'')
        \<and> (\<exists>res \<in> set (letter_runs unit). get_si_unit res = None) \<longrightarrow>
      ensure_si_unit unit = Inl (NameError (NotAValidUnit
        (hd (filter (\<lambda>res. get_si_unit res = None) (letter_runs unit))) unit)))
   \<and> ((\<exists>c \<in> set unit. \<not> valid_char c)
        \<or> count_list unit (CHR ''('') \<noteq> count_list unit (CHR '')'')
        \<or> (\<exists>res \<in> set (letter_runs unit). get_si_unit res = None) \<longrightarrow>
      (\<exists>e. ensure_si_unit unit = Inl (NameError e)))
   \<and> (ensure_si_unit unit = Inl e \<longrightarrow>
      get_unit_exponents unit = Inl e
      \<and> units_compatible unit other = Inl e
      \<and> (ensure_si_unit other = Inr () \<longrightarrow> units_compatible other unit = Inl e)
      \<and> (reachable_cache cache \<longrightarrow>
           unit_conversion_factor cache unit other = (Inl e, cache)
           \<and> (ensure_si_unit other = Inr () \<longrightarrow>
                unit_conversion_factor cache other unit = (Inl e, cache))))"
proof (intro conjI impI)
  assume "(\<exists>c \<in> set unit. \<not> valid_char c)
        \<or> count_list unit (CHR ''('') \<noteq> count_list unit (CHR '')'')
        \<or> (\<exists>res \<in> set (letter_runs unit). get_si_unit res = None)"
  then show "\<exists>e. ensure_si_unit unit = Inl (NameError e)"
    by (cases "\<exists>c \<in> set unit. \<not> valid_char c";
        cases "count_list unit (CHR ''('') \<noteq> count_list unit (CHR '')'')")
      (auto simp: ensure_si_unit_invalid_character ensure_si_unit_unbalanced
        ensure_si_unit_unknown)
qed (auto simp: ensure_si_unit_invalid_character ensure_si_unit_unbalanced
    ensure_si_unit_unknown ensure_si_unit_fails_first reachable_cache_failure)


lemma get_si_unit_xyz: "get_si_unit ''xyz'' = None"
  by (simp add: registry_defs)

theorem C9_validation_errors_witness:
  "ensure_si_unit ''m#'' = Inl (NameError (InvalidCharacter (CHR ''#'') ''m#''))
   \<and> ensure_si_unit ''m(('' = Inl (NameError (UnbalancedBrackets ''m((''))
   \<and> ensure_si_unit ''xyz'' = Inl (NameError (NotAValidUnit ''xyz'' ''xyz''))
   \<and> units_compatible ''xyz'' ''m'' = Inl (NameError (NotAValidUnit ''xyz'' ''xyz''))
   \<and> units_compatible ''m'' ''xyz'' = Inl (NameError (NotAValidUnit ''xyz'' ''xyz''))
   \<and> unit_conversion_factor Map.empty ''m'' ''xyz''
       = (Inl (NameError (NotAValidUnit ''xyz'' ''xyz'')), Map.empty)"
  using C9_validation_errors [of "''m#''" "NameError (InvalidCharacter (CHR ''#'') ''m#'')" "''m''" Map.empty]
    C9_validation_errors [of "''m((''" "NameError (UnbalancedBrackets ''m(('')" "''m''" Map.empty]
    C9_validation_errors [of "''xyz''" "NameError (NotAValidUnit ''xyz'' ''xyz'')" "''m''" Map.empty]
  by (simp add: char_defs get_si_unit_xyz get_si_unit_m ensure_si_unit_m reachable_cache.initial)

section \<open>The registry\<close>

lemma get_si_unit_in_find:
  "get_si_unit_in order unit =
     (case List.find (\<lambda>unit_si. si_match unit_si unit \<noteq> None) order of
        None \<Rightarrow> NON_SI_MAP unit
      | Some unit_si \<Rightarrow> Some (unit_si, the (si_match unit_si unit)))"
  by (induction order) (auto simp: si_match_def split: option.splits)

lemma find_unique:
  assumes "\<And>x y. x \<in> set xs \<Longrightarrow> y \<in> set xs \<Longrightarrow> P x \<Longrightarrow> P y \<Longrightarrow> x = y"
    and "x \<in> set xs" and "P x"
  shows "List.find P xs = Some x"
  using assms
proof (induction xs)
  case Nil
  then show ?case by simp
next
  case (Cons a xs)
  then show ?case by (cases "P a") auto
qed

lemma UNITS_SI_suffix_table:
  "\<forall>b \<in> set UNITS_SI_order. \<forall>a \<in> set (suffixes b). a \<in> set UNITS_SI_order \<longrightarrow>
     a = b \<or> (a, b) \<in> {(''m'', ''lm''), (''m'', ''Ohm''), (''s'', ''Celsius'')}"
  by (simp add: UNITS_SI_order_def)

lemma UNITS_SI_suffix:
  assumes "a \<in> UNITS_SI" and "b \<in> UNITS_SI" and "suffix a b" and "a \<noteq> b"
  shows "(a, b) \<in> {(''m'', ''lm''), (''m'', ''Ohm''), (''s'', ''Celsius'')}"
proof -
  from assms(3) have "a \<in> set (suffixes b)" by (simp add: in_set_suffixes)
  with assms(1,2,4) UNITS_SI_suffix_table show ?thesis
    unfolding UNITS_SI_def by blast
qed


lemma UNITS_SI_letters:
  "unit_si \<in> UNITS_SI \<Longrightarrow> unit_si \<noteq> [] \<and> (\<forall>c \<in> set unit_si. is_letter c)"
  unfolding UNITS_SI_def UNITS_SI_order_def by (auto simp: is_letter_def)

lemma PREFIX_SI_no_suffix:
  assumes "PREFIX_SI p = Some m"
  shows "\<not> suffix ''l'' p \<and> \<not> suffix ''Oh'' p \<and> \<not> suffix ''Celsiu'' p"
proof -
  from assms have "(p, m) \<in> set PREFIX_SI_items"
    unfolding PREFIX_SI_def by (rule map_of_SomeD)
  then show ?thesis
    unfolding PREFIX_SI_items_def by (auto simp: suffix_to_prefix)
qed

lemma not_letter_newline: "\<not> is_letter (CHR 0x0A)"
  by (simp add: is_letter_def)

lemma search_at_end_split:
  assumes "unit_si \<in> UNITS_SI" and "search_at_end unit_si unit = Some start"
  shows "\<exists>tail. (tail = [] \<or> tail = [CHR 0x0A]) \<and> unit = take start unit @ unit_si @ tail
    \<and> (tail = [] \<longleftrightarrow> \<not> suffix [CHR 0x0A] unit)"
proof (cases "suffix (unit_si @ [CHR 0x0A]) unit")
  case True
  then obtain p where p: "unit = p @ unit_si @ [CHR 0x0A]" by (auto simp: suffix_def)
  with True assms(2) have "start = length p" by (simp add: search_at_end_def)
  with p have "unit = take start unit @ unit_si @ [CHR 0x0A]" by simp
  moreover from p have "suffix [CHR 0x0A] unit" by (simp add: suffix_def)
  ultimately show ?thesis by blast
next
  case False
  with assms(2) have suf: "suffix unit_si unit" and start: "start = length unit - length unit_si"
    by (auto simp: search_at_end_def split: if_splits)
  from suf obtain p where p: "unit = p @ unit_si" by (auto simp: suffix_def)
  with start have "unit = take start unit @ unit_si @ []" by simp
  moreover have "\<not> suffix [CHR 0x0A] unit"
  proof
    assume "suffix [CHR 0x0A] unit"
    with p assms(1) UNITS_SI_letters [of unit_si] have "last unit_si = CHR 0x0A"
      by (auto simp: suffix_def) (metis last_appendR last_snoc)
    moreover from assms(1) UNITS_SI_letters [of unit_si] have "is_letter (last unit_si)"
      by simp
    ultimately show False by (simp add: not_letter_newline)
  qed
  ultimately show ?thesis by blast
qed

lemma si_match_stem:
  assumes "unit_si \<in> UNITS_SI" and "si_match unit_si unit \<noteq> None"
  shows "\<exists>p tail. unit = p @ unit_si @ tail \<and> (tail = [] \<longleftrightarrow> \<not> suffix [CHR 0x0A] unit)
    \<and> (tail = [] \<or> tail = [CHR 0x0A]) \<and> (p = [] \<or> PREFIX_SI p \<noteq> None)"
proof -
  from assms(2) obtain start where start: "search_at_end unit_si unit = Some start"
    and pre: "start = 0 \<or> PREFIX_SI (take start unit) \<noteq> None"
    by (auto simp: si_match_def split: option.splits if_splits)
  from search_at_end_split [OF assms(1) start] obtain tail where
    "tail = [] \<or> tail = [CHR 0x0A]" "unit = take start unit @ unit_si @ tail"
    "tail = [] \<longleftrightarrow> \<not> suffix [CHR 0x0A] unit" by blast
  moreover from pre have "take start unit = [] \<or> PREFIX_SI (take start unit) \<noteq> None" by auto
  ultimately show ?thesis by blast
qed

lemma prefixed_symbols_differ:
  assumes "a \<in> UNITS_SI" and "b \<in> UNITS_SI" and "p @ a = q @ b" and "suffix a b"
    and "p = [] \<or> PREFIX_SI p \<noteq> None"
  shows "a = b"
proof (rule ccontr)
  assume "a \<noteq> b"
  with assms(1,2,4) have "(a, b) \<in> {(''m'', ''lm''), (''m'', ''Ohm''), (''s'', ''Celsius'')}"
    by (rule UNITS_SI_suffix)
  then obtain us where us: "b = us @ a" "us \<in> {''l'', ''Oh'', ''Celsiu''}"
    by auto
  with assms(3) have p: "p = q @ us" by simp
  with us(2) have "p \<noteq> []" by auto
  with assms(5) obtain m where "PREFIX_SI p = Some m" by auto
  then have "\<not> suffix ''l'' p \<and> \<not> suffix ''Oh'' p \<and> \<not> suffix ''Celsiu'' p"
    by (rule PREFIX_SI_no_suffix)
  with p us(2) show False by (auto simp: suffix_def)
qed

lemma si_match_unique:
  assumes "a \<in> UNITS_SI" and "b \<in> UNITS_SI"
    and "si_match a unit \<noteq> None" and "si_match b unit \<noteq> None"
  shows "a = b"
proof -
  from si_match_stem [OF assms(1,3)] obtain p s where
    a: "unit = p @ a @ s" "s = [] \<longleftrightarrow> \<not> suffix [CHR 0x0A] unit" "s = [] \<or> s = [CHR 0x0A]"
      "p = [] \<or> PREFIX_SI p \<noteq> None" by blast
  from si_match_stem [OF assms(2,4)] obtain q t where
    b: "unit = q @ b @ t" "t = [] \<longleftrightarrow> \<not> suffix [CHR 0x0A] unit" "t = [] \<or> t = [CHR 0x0A]"
      "q = [] \<or> PREFIX_SI q \<noteq> None" by blast
  from a(2,3) b(2,3) have "s = t" by auto
  with a(1) b(1) have eq: "p @ a = q @ b" by simp
  have "suffix a (p @ a)" "suffix b (q @ b)" by (simp_all add: suffix_def)
  with eq have "suffix a (q @ b)" "suffix b (q @ b)" by simp_all
  then have "suffix a b \<or> suffix b a" by (rule suffix_same_cases)
  then show ?thesis
  proof
    assume "suffix a b"
    with assms(1,2) eq a(4) show ?thesis by (blast intro: prefixed_symbols_differ)
  next
    assume "suffix b a"
    with assms(2,1) eq [symmetric] b(4) have "b = a" by (blast intro: prefixed_symbols_differ)
    then show ?thesis by simp
  qed
qed

lemma get_si_unit_in_order:
  assumes "set order = UNITS_SI"
  shows "get_si_unit_in order unit = get_si_unit unit"
proof -
  have order': "set UNITS_SI_order = UNITS_SI" by (simp add: UNITS_SI_def)
  let ?P = "\<lambda>unit_si. si_match unit_si unit \<noteq> None"
  have "List.find ?P order = List.find ?P UNITS_SI_order"
  proof (cases "\<exists>a \<in> UNITS_SI. ?P a")
    case True
    then obtain a where a: "a \<in> UNITS_SI" "?P a" by blast
    have "List.find ?P order = Some a"
      using assms a by (intro find_unique) (auto intro: si_match_unique)
    moreover have "List.find ?P UNITS_SI_order = Some a"
      using order' a by (intro find_unique) (auto intro: si_match_unique)
    ultimately show ?thesis by simp
  next
    case False
    with assms have "List.find ?P order = None"
      unfolding find_None_iff by blast
    moreover from False order' have "List.find ?P UNITS_SI_order = None"
      unfolding find_None_iff by blast
    ultimately show ?thesis by simp
  qed
  then show ?thesis by (simp add: get_si_unit_in_find get_si_unit_def)
qed

lemma letters_no_newline_suffix:
  assumes "\<forall>c \<in> set unit. is_letter c"
  shows "\<not> suffix (unit_si @ [CHR 0x0A]) unit"
proof
  assume "suffix (unit_si @ [CHR 0x0A]) unit"
  then have "CHR 0x0A \<in> set unit" by (auto simp: suffix_def)
  with assms show False by (auto simp: not_letter_newline)
qed

lemma si_match_letters:
  assumes "\<forall>c \<in> set unit. is_letter c" and "unit = p @ unit_si"
  shows "si_match unit_si unit = (if p = [] then Some 1 else PREFIX_SI p)"
  using letters_no_newline_suffix [OF assms(1), of unit_si] assms(2)
  by (simp add: si_match_def search_at_end_def suffix_def)

lemma si_match_suffix:
  assumes "si_match unit_si unit \<noteq> None" and "\<forall>c \<in> set unit. is_letter c"
  shows "suffix unit_si unit"
  using assms letters_no_newline_suffix [OF assms(2), of unit_si]
  by (auto simp: si_match_def search_at_end_def split: if_splits)

lemma get_si_unit_in_resolved:
  assumes "set order = UNITS_SI" and "unit_si \<in> UNITS_SI" and "si_match unit_si unit = Some m"
  shows "get_si_unit_in order unit = Some (unit_si, m)"
proof -
  have "List.find (\<lambda>a. si_match a unit \<noteq> None) order = Some unit_si"
    using assms by (intro find_unique) (auto intro: si_match_unique)
  with assms(3) show ?thesis by (simp add: get_si_unit_in_find)
qed

lemma get_si_unit_in_unresolved:
  assumes "set order = UNITS_SI" and "\<forall>unit_si \<in> UNITS_SI. si_match unit_si unit = None"
  shows "get_si_unit_in order unit = NON_SI_MAP unit"
proof -
  from assms have "List.find (\<lambda>a. si_match a unit \<noteq> None) order = None"
    by (auto simp: find_None_iff)
  then show ?thesis by (simp add: get_si_unit_in_find)
qed

lemma letter_runs_token:
  assumes "unit \<noteq> []" and "\<forall>c \<in> set unit. is_letter c"
  shows "letter_runs unit = [unit]"
proof (cases unit)
  case Nil
  with assms(1) show ?thesis by simp
next
  case (Cons c cs)
  with assms(2) have "is_letter c" "takeWhile is_letter cs = cs" "dropWhile is_letter cs = []"
    by (simp_all add: takeWhile_eq_all_conv dropWhile_eq_Nil_conv)
  with Cons show ?thesis
    by (simp add: letter_runs.simps(2) del: dropWhile_eq_Nil_conv takeWhile_eq_all_conv)
qed

lemma is_letter_valid: "is_letter c \<Longrightarrow> valid_char c"
  by (simp add: valid_char_def)

lemma is_letter_not_special:
  "is_letter c \<Longrightarrow> c \<noteq> CHR ''('' \<and> c \<noteq> CHR '')'' \<and> c \<noteq> CHR ''^'' \<and> c \<noteq> CHR ''/''
     \<and> c \<noteq> CHR ''*'' \<and> c \<noteq> CHR '' '' \<and> \<not> is_digit c"
  by (auto simp: is_letter_def is_digit_def Let_def)

lemma count_list_0: "x \<notin> set xs \<Longrightarrow> count_list xs x = 0"
  by (induction xs) auto

lemma ensure_si_unit_token:
  assumes "unit \<noteq> []" and "\<forall>c \<in> set unit. is_letter c"
  shows "ensure_si_unit unit =
    (if get_si_unit unit = None then Inl (NameError (NotAValidUnit unit unit)) else Inr ())"
proof -
  from assms(2) have "List.find (\<lambda>c. \<not> valid_char c) unit = None"
    by (auto simp: find_None_iff is_letter_valid)
  moreover from assms(2) have "CHR ''('' \<notin> set unit" "CHR '')'' \<notin> set unit"
    using is_letter_not_special by blast+
  then have "count_list unit (CHR ''('') = 0" "count_list unit (CHR '')'') = 0"
    by (simp_all add: count_list_0)
  ultimately show ?thesis
    by (simp add: ensure_si_unit_def letter_runs_token [OF assms])
qed

text \<open>
  C3: the lookup of a token that consists of letters only, for every order in which the
  loop may visit \<^verbatim>\<open>UNITS_SI\<close>. A token that is a base symbol resolves to itself with the
  multiplier \<open>1\<close>. Otherwise, if the token is a recognised prefix followed by a base
  symbol, it resolves to that symbol with the multiplier of the prefix. Otherwise the
  result is the entry of the token in \<^verbatim>\<open>NON_SI_MAP\<close>, and when there is none, the result
  is \<^verbatim>\<open>None\<close> and validation of the token raises the unknown-unit \<^verbatim>\<open>NameError\<close>.
\<close>

theorem C3_registry_resolution_order:
  assumes "set order = UNITS_SI" and "unit \<noteq> []" and "\<forall>c \<in> set unit. is_letter c"
  shows "(unit \<in> UNITS_SI \<longrightarrow> get_si_unit_in order unit = Some (unit, 1))
    \<and> (\<forall>unit_si prefix multiplier.
          unit \<notin> UNITS_SI \<and> unit_si \<in> UNITS_SI \<and> unit = prefix @ unit_si
          \<and> PREFIX_SI prefix = Some multiplier \<longrightarrow>
          get_si_unit_in order unit = Some (unit_si, multiplier))
    \<and> (unit \<notin> UNITS_SI
          \<and> (\<forall>unit_si prefix. unit_si \<in> UNITS_SI \<and> unit = prefix @ unit_si \<longrightarrow>
                PREFIX_SI prefix = None) \<longrightarrow>
          get_si_unit_in order unit = NON_SI_MAP unit
          \<and> (NON_SI_MAP unit = None \<longrightarrow>
                get_si_unit_in order unit = None
                \<and> ensure_si_unit unit = Inl (NameError (NotAValidUnit unit unit))))
    \<and> get_si_unit unit = get_si_unit_in order unit"
proof (intro conjI allI impI)
  assume "unit \<in> UNITS_SI"
  moreover have "si_match unit unit = Some 1"
    using si_match_letters [OF assms(3), of "[]" unit] by simp
  ultimately show "get_si_unit_in order unit = Some (unit, 1)"
    using assms(1) by (intro get_si_unit_in_resolved)
next
  fix unit_si prefix multiplier
  assume *: "unit \<notin> UNITS_SI \<and> unit_si \<in> UNITS_SI \<and> unit = prefix @ unit_si
          \<and> PREFIX_SI prefix = Some multiplier"
  then have "prefix \<noteq> []"
    by (auto simp: PREFIX_SI_def PREFIX_SI_items_def)
  with * have "si_match unit_si unit = Some multiplier"
    using si_match_letters [OF assms(3), of prefix unit_si] by simp
  with * assms(1) show "get_si_unit_in order unit = Some (unit_si, multiplier)"
    by (intro get_si_unit_in_resolved) auto
next
  assume *: "unit \<notin> UNITS_SI
          \<and> (\<forall>unit_si prefix. unit_si \<in> UNITS_SI \<and> unit = prefix @ unit_si \<longrightarrow>
                PREFIX_SI prefix = None)"
  have none: "\<forall>unit_si \<in> UNITS_SI. si_match unit_si unit = None"
  proof (intro ballI, rule ccontr)
    fix unit_si
    assume si: "unit_si \<in> UNITS_SI" and "si_match unit_si unit \<noteq> None"
    then have match: "si_match unit_si unit \<noteq> None" by simp
    then have "suffix unit_si unit" using assms(3) by (rule si_match_suffix)
    then obtain p where p: "unit = p @ unit_si" by (auto simp: suffix_def)
    with * si have "p \<noteq> []" "PREFIX_SI p = None" by auto
    with p match si_match_letters [OF assms(3) p] show False by simp
  qed
  with assms(1) show nonsi: "get_si_unit_in order unit = NON_SI_MAP unit"
    by (rule get_si_unit_in_unresolved)
  {
    assume "NON_SI_MAP unit = None"
    with nonsi show "get_si_unit_in order unit = None" by simp
    then have "get_si_unit unit = None"
      using assms(1) by (simp add: get_si_unit_in_order)
    then show "ensure_si_unit unit = Inl (NameError (NotAValidUnit unit unit))"
      using assms(2,3) by (simp add: ensure_si_unit_token)
  }
next
  show "get_si_unit unit = get_si_unit_in order unit"
    using assms(1) by (simp add: get_si_unit_in_order)
qed


lemma no_prefixed_split:
  assumes "unit \<notin> UNITS_SI" and "\<forall>unit_si \<in> UNITS_SI. \<not> suffix unit_si unit"
  shows "\<forall>unit_si prefix. unit_si \<in> UNITS_SI \<and> unit = prefix @ unit_si \<longrightarrow>
    PREFIX_SI prefix = None"
  using assms by (auto simp: suffix_def)

theorem C3_registry_resolution_order_witness:
  "set (rev UNITS_SI_order) = UNITS_SI
   \<and> get_si_unit_in (rev UNITS_SI_order) ''m'' = Some (''m'', 1)
   \<and> get_si_unit_in (rev UNITS_SI_order) ''km'' = Some (''m'', 1000)
   \<and> get_si_unit_in (rev UNITS_SI_order) ''h'' = Some (''s'', 3600)
   \<and> get_si_unit_in (rev UNITS_SI_order) ''xyz'' = None
   \<and> ensure_si_unit ''xyz'' = Inl (NameError (NotAValidUnit ''xyz'' ''xyz''))"
proof -
  have order: "set (rev UNITS_SI_order) = UNITS_SI"
    by (simp add: UNITS_SI_def)
  have letters: "\<forall>c \<in> set ''m''. is_letter c" "\<forall>c \<in> set ''km''. is_letter c"
    "\<forall>c \<in> set ''h''. is_letter c" "\<forall>c \<in> set ''xyz''. is_letter c"
    by (simp_all add: is_letter_def)
  have m: "''m'' \<in> UNITS_SI"
    by (simp add: UNITS_SI_def UNITS_SI_order_def)
  have km: "''km'' \<notin> UNITS_SI \<and> ''m'' \<in> UNITS_SI \<and> ''km'' = ''k'' @ ''m''
      \<and> PREFIX_SI ''k'' = Some 1000"
    by (simp add: UNITS_SI_def UNITS_SI_order_def PREFIX_SI_def PREFIX_SI_items_def)
  have h: "''h'' \<notin> UNITS_SI \<and> (\<forall>unit_si prefix.
      unit_si \<in> UNITS_SI \<and> ''h'' = prefix @ unit_si \<longrightarrow> PREFIX_SI prefix = None)"
    by (intro conjI no_prefixed_split)
      (simp_all add: UNITS_SI_def UNITS_SI_order_def suffix_to_prefix)
  have xyz: "''xyz'' \<notin> UNITS_SI \<and> (\<forall>unit_si prefix.
      unit_si \<in> UNITS_SI \<and> ''xyz'' = prefix @ unit_si \<longrightarrow> PREFIX_SI prefix = None)"
    by (intro conjI no_prefixed_split)
      (simp_all add: UNITS_SI_def UNITS_SI_order_def suffix_to_prefix)
  have "get_si_unit_in (rev UNITS_SI_order) ''m'' = Some (''m'', 1)"
    using C3_registry_resolution_order [OF order _ letters(1)] m by blast
  moreover have "get_si_unit_in (rev UNITS_SI_order) ''km'' = Some (''m'', 1000)"
    using C3_registry_resolution_order [OF order _ letters(2)] km by blast
  moreover have "get_si_unit_in (rev UNITS_SI_order) ''h'' = NON_SI_MAP ''h''"
    using C3_registry_resolution_order [OF order _ letters(3)] h by blast
  then have "get_si_unit_in (rev UNITS_SI_order) ''h'' = Some (''s'', 3600)"
    by (simp add: NON_SI_MAP_def NON_SI_MAP_items_def)
  moreover have "NON_SI_MAP ''xyz'' = None"
    by (simp add: NON_SI_MAP_def NON_SI_MAP_items_def)
  then have "get_si_unit_in (rev UNITS_SI_order) ''xyz'' = None
      \<and> ensure_si_unit ''xyz'' = Inl (NameError (NotAValidUnit ''xyz'' ''xyz''))"
    using C3_registry_resolution_order [OF order _ letters(4)] xyz by blast
  ultimately show ?thesis using order by blast
qed

section \<open>Exponents of a unit and of itself\<close>

lemma dict_store_keys:
  "map fst (dict_store k v d) = (if k \<in> fst ` set d then map fst d else map fst d @ [k])"
  by (auto simp: dict_store_def split: prod.splits)

lemma dict_store_distinct:
  "distinct (map fst d) \<Longrightarrow> distinct (map fst (dict_store k v d))"
  by (simp add: dict_store_keys)

lemma foldl_dict_store_keys:
  "distinct (map fst d) \<Longrightarrow>
   distinct (map fst (foldl (\<lambda>d k. dict_store k v d) d ks))
   \<and> set (map fst (foldl (\<lambda>d k. dict_store k v d) d ks)) = set (map fst d) \<union> set ks"
proof (induction ks arbitrary: d)
  case Nil
  then show ?case by simp
next
  case (Cons k ks)
  from Cons.prems have "distinct (map fst (dict_store k v d))"
    by (rule dict_store_distinct)
  from Cons.IH [OF this] show ?case
    by (auto simp: dict_store_keys split: if_splits)
qed

lemma initial_exponents_keys:
  "distinct (map fst (initial_exponents unit))"
  "set (map fst (initial_exponents unit)) = set (letter_runs unit)"
  using foldl_dict_store_keys [of "[]" 1 "letter_runs unit"]
  by (simp_all add: initial_exponents_def)

lemma dict_times_keys:
  "dict_times k x d = Inr d' \<Longrightarrow> map fst d' = map fst d"
  by (auto simp: dict_times_def split: if_splits prod.splits)

lemma dict_times_all_keys:
  "dict_times_all ks x d = Inr d' \<Longrightarrow> map fst d' = map fst d"
proof (induction ks arbitrary: d)
  case Nil
  then show ?case by simp
next
  case (Cons k ks)
  then show ?case
    by (auto split: sum.splits dest: dict_times_keys)
qed

lemma remove_brackets_keys:
  "remove_brackets d unit = Inr (d', unit') \<Longrightarrow> map fst d' = map fst d"
proof (induction d unit rule: remove_brackets.induct)
  case (1 d unit)
  show ?case
  proof (cases "search_bracket unit")
    case None
    with "1.prems" show ?thesis by (simp add: remove_brackets.simps [of d unit])
  next
    case (Some found)
    obtain str_pre inner str_post where found: "found = (str_pre, inner, str_post)"
      by (cases found)
    from "1.prems" Some found obtain exponent str_post' where
      be: "bracket_exponent str_post = Inr (exponent, str_post')"
      by (auto simp: remove_brackets.simps [of d unit] split: sum.splits)
    define divided where "divided \<longleftrightarrow> str_pre \<noteq> [] \<and> last str_pre = CHR ''/''"
    define str_pre' where "str_pre' = (if divided then butlast str_pre @ [CHR ''*''] else str_pre)"
    define exponent' where "exponent' = (if divided then exponent * (- 1) else exponent)"
    from "1.prems" Some found be obtain d1 where
      d1: "dict_times_all (letter_runs ([CHR ''(''] @ inner @ [CHR '')''])) exponent' d = Inr d1"
      and rec: "remove_brackets d1 (str_pre' @ inner @ str_post') = Inr (d', unit')"
      by (auto simp: remove_brackets.simps [of d unit] Let_def divided_def str_pre'_def
          exponent'_def split: sum.splits)
    from "1.IH" [OF Some found [symmetric] refl be refl divided_def str_pre'_def
        exponent'_def d1 rec]
    have "map fst d' = map fst d1" .
    with d1 show ?thesis by (simp add: dict_times_all_keys)
  qed
qed


lemma individual_exponents_keys:
  "individual_exponents d matches = Inr d' \<Longrightarrow> map fst d' = map fst d"
proof (induction matches arbitrary: d)
  case Nil
  then show ?case by simp
next
  case (Cons m matches)
  obtain unit' str_post where m: "m = (unit', str_post)" by (cases m)
  from Cons.prems m obtain d1 x where
    "dict_times unit' x d = Inr d1" "individual_exponents d1 matches = Inr d'"
    by (auto split: option.splits if_splits sum.splits)
  with Cons.IH [of d1] show ?case by (simp add: dict_times_keys)
qed

lemma individual_divisions_keys:
  "individual_divisions d matches = Inr d' \<Longrightarrow> map fst d' = map fst d"
proof (induction matches arbitrary: d)
  case Nil
  then show ?case by simp
next
  case (Cons m matches)
  from Cons.prems obtain d1 where
    "dict_times m (- 1) d = Inr d1" "individual_divisions d1 matches = Inr d'"
    by (auto split: sum.splits)
  with Cons.IH [of d1] show ?case by (simp add: dict_times_keys)
qed

lemma get_unit_exponents_keys:
  assumes "get_unit_exponents unit = Inr d"
  shows "map fst d = map fst (initial_exponents unit)"
proof -
  from assms obtain d1 unit' d2 where
    "remove_brackets (initial_exponents unit) (strip_spaces unit) = Inr (d1, unit')"
    "individual_exponents d1 (caret_matches unit') = Inr d2"
    "individual_divisions d2 (slash_matches unit') = Inr d"
    by (auto simp: get_unit_exponents_def split: sum.splits)
  then show ?thesis
    by (simp add: remove_brackets_keys individual_exponents_keys individual_divisions_keys)
qed


lemma get_unit_exponents_valid:
  "get_unit_exponents unit = Inr d \<Longrightarrow> ensure_si_unit unit = Inr ()"
  by (auto simp: get_unit_exponents_def split: sum.splits)

lemma ensure_si_unit_runs:
  assumes "ensure_si_unit unit = Inr ()" and "res \<in> set (letter_runs unit)"
  shows "get_si_unit res \<noteq> None"
proof -
  from assms(1) have "List.find (\<lambda>res. get_si_unit res = None) (letter_runs unit) = None"
    by (auto simp: ensure_si_unit_def split: option.splits if_splits)
  with assms(2) show ?thesis by (auto simp: find_None_iff)
qed

lemma get_unit_exponents_known:
  assumes "get_unit_exponents unit = Inr d" and "k \<in> fst ` set d"
  shows "get_si_unit k \<noteq> None"
proof -
  from assms(2) have "k \<in> set (map fst d)" by simp
  with assms(1) have "k \<in> set (letter_runs unit)"
    by (simp only: get_unit_exponents_keys initial_exponents_keys)
  with get_unit_exponents_valid [OF assms(1)] show ?thesis
    by (rule ensure_si_unit_runs)
qed




lemma sub_units_total:
  "\<forall>res \<in> set (letter_runs unit). get_si_unit res \<noteq> None \<Longrightarrow> \<exists>n. sub_units unit = Inr n"
proof (induction unit rule: letter_runs.induct)
  case 1
  then show ?case by simp
next
  case (2 c cs)
  show ?case
  proof (cases "is_letter c")
    case True
    with "2.prems" have "get_si_unit (takeWhile is_letter (c # cs)) \<noteq> None"
      and "\<forall>res \<in> set (letter_runs (dropWhile is_letter cs)). get_si_unit res \<noteq> None"
      by (simp_all add: letter_runs.simps(2))
    with True "2.IH"(1) show ?thesis
      by (auto simp: sub_units.simps(2))
  next
    case False
    with "2.prems" have "\<forall>res \<in> set (letter_runs cs). get_si_unit res \<noteq> None"
      by (simp add: letter_runs.simps(2))
    with False "2.IH"(2) show ?thesis
      by (auto simp: sub_units.simps(2))
  qed
qed

lemma ensure_si_unit_sub_units:
  "ensure_si_unit unit = Inr () \<Longrightarrow> \<exists>n. sub_units unit = Inr n"
  by (rule sub_units_total) (simp add: ensure_si_unit_runs)


lemma PREFIX_SI_positive: "PREFIX_SI p = Some m \<Longrightarrow> 0 < m"
proof -
  assume "PREFIX_SI p = Some m"
  then have "(p, m) \<in> set PREFIX_SI_items"
    unfolding PREFIX_SI_def by (rule map_of_SomeD)
  then show ?thesis
    unfolding PREFIX_SI_items_def by auto
qed

lemma NON_SI_MAP_positive: "NON_SI_MAP unit = Some (unit_si, m) \<Longrightarrow> 0 < m"
proof -
  assume "NON_SI_MAP unit = Some (unit_si, m)"
  then have "(unit, unit_si, m) \<in> set NON_SI_MAP_items"
    unfolding NON_SI_MAP_def by (rule map_of_SomeD)
  then show ?thesis
    unfolding NON_SI_MAP_items_def by auto
qed

lemma si_match_positive: "si_match unit_si unit = Some m \<Longrightarrow> 0 < m"
  by (auto simp: si_match_def split: option.splits if_splits dest: PREFIX_SI_positive)

lemma get_si_unit_positive:
  assumes "get_si_unit unit = Some (unit_si, m)"
  shows "0 < m"
proof (cases "List.find (\<lambda>a. si_match a unit \<noteq> None) UNITS_SI_order")
  case None
  with assms have "NON_SI_MAP unit = Some (unit_si, m)"
    by (simp add: get_si_unit_def get_si_unit_in_find)
  then show ?thesis by (rule NON_SI_MAP_positive)
next
  case (Some a)
  then have "si_match a unit \<noteq> None" by (auto simp: find_Some_iff)
  moreover from Some assms have "m = the (si_match a unit)"
    by (auto simp: get_si_unit_def get_si_unit_in_find)
  ultimately have "si_match a unit = Some m" by auto
  then show ?thesis by (rule si_match_positive)
qed

lemma multiplier_of_positive:
  assumes "0 < multiplier" and "\<forall>k \<in> fst ` set d. get_si_unit k \<noteq> None"
  shows "\<exists>x. multiplier_of multiplier d = Inr x \<and> 0 < x"
  using assms
proof (induction d arbitrary: multiplier)
  case Nil
  then show ?case by simp
next
  case (Cons item d)
  obtain unit exponent where item: "item = (unit, exponent)" by (cases item)
  with Cons.prems obtain unit_si m where m: "get_si_unit unit = Some (unit_si, m)" by auto
  then have "0 < m" by (rule get_si_unit_positive)
  with Cons.prems have "0 < multiplier * (m powr exponent)" by simp
  moreover from Cons.prems have "\<forall>k \<in> fst ` set d. get_si_unit k \<noteq> None" by simp
  ultimately have "\<exists>x. multiplier_of (multiplier * (m powr exponent)) d = Inr x \<and> 0 < x"
    by (rule Cons.IH)
  with item m show ?case by simp
qed

lemma get_unit_exponents_multiplier:
  assumes "get_unit_exponents unit = Inr d"
  shows "\<exists>x. multiplier_of 1 d = Inr x \<and> 0 < x"
  using get_unit_exponents_known [OF assms] by (intro multiplier_of_positive) auto

text \<open>
  In exact arithmetic a factor is a quotient of two positive products. (For doubles this
  is where rounding matters: a product of powers can underflow to \<open>0.0\<close>.)
\<close>

lemma compute_factor_positive:
  assumes "compute_factor source_unit target_unit = Inr factor"
  shows "0 < factor"
proof -
  from assms obtain ds dt xs xt where
    d: "get_unit_exponents source_unit = Inr ds" "get_unit_exponents target_unit = Inr dt"
    and x: "multiplier_of 1 ds = Inr xs" "multiplier_of 1 dt = Inr xt"
    and factor: "factor = xs / xt"
    by (auto simp: compute_factor_def split: sum.splits if_splits)
  from d x get_unit_exponents_multiplier [of source_unit ds]
    get_unit_exponents_multiplier [of target_unit dt]
  have "0 < xs" "0 < xt" by auto
  with factor show ?thesis by simp
qed














section \<open>Carets without an operand\<close>






lemma dropWhile_letter_runs:
  "set (letter_runs (dropWhile is_letter cs)) \<subseteq> set (letter_runs (c # cs))"
  if "is_letter c"
  using that by (auto simp: letter_runs.simps(2))




















end
